theory Spec2Isabelle
  imports Main "HOL-Library.Sublist"
begin

section \<open>Library values that tasker.py works with\<close>

text \<open>
  The module \<^verbatim>\<open>securitybot/tasker/tasker.py\<close> builds on three library types:
  \<^verbatim>\<open>datetime.datetime\<close>, \<^verbatim>\<open>datetime.timedelta\<close> and the \<^verbatim>\<open>pytz.utc\<close> time zone.
  Their parts that the module reaches are modelled here; every exception the module can
  meet is a value of \<open>py_error\<close>.
\<close>

datatype py_error = AttributeError | ValueError | OverflowError

text \<open>A time zone object: \<^verbatim>\<open>pytz.utc\<close>, or any other zone, known by its \<^verbatim>\<open>repr\<close>.\<close>

datatype tz = UTC | Zone string

text \<open>
  A \<^verbatim>\<open>datetime.datetime\<close>: its calendar fields and its \<^verbatim>\<open>tzinfo\<close>, which is
  \<^verbatim>\<open>None\<close> for a naive value.
\<close>

record datetime =
  year :: int
  month :: int
  day :: int
  hour :: int
  minute :: int
  second :: int
  microsecond :: int
  tzinfo :: "tz option"

text \<open>
  \<^verbatim>\<open>pytz.utc.localize(dt)\<close>:
  \<^verbatim>\<open>
    if dt.tzinfo is not None:
        raise ValueError('Not naive datetime (tzinfo is already set)')
    return dt.replace(tzinfo=self)
  \<close>
  Reading \<^verbatim>\<open>.tzinfo\<close> of \<^verbatim>\<open>None\<close> raises AttributeError.
\<close>

definition utc_localize :: "datetime option \<Rightarrow> py_error + datetime" where
  "utc_localize dt =
     (case dt of
        None \<Rightarrow> Inl AttributeError
      | Some d \<Rightarrow>
          (if tzinfo d \<noteq> None then Inl ValueError
           else Inr (d\<lparr>tzinfo := Some UTC\<rparr>)))"

text \<open>
  \<^verbatim>\<open>datetime.now(tz=pytz.utc)\<close>: the reading of the clock, as a zoned value. The clock is
  the argument \<open>clock\<close>, its calendar fields taken in UTC.
\<close>

definition datetime_now_utc :: "datetime \<Rightarrow> datetime" where
  "datetime_now_utc clock = clock\<lparr>tzinfo := Some UTC\<rparr>"

text \<open>
  A \<^verbatim>\<open>datetime.timedelta\<close> holds three normalised integers: \<^verbatim>\<open>days\<close>,
  \<^verbatim>\<open>seconds\<close> (within the day) and \<^verbatim>\<open>microseconds\<close> (within the second).
\<close>

record timedelta =
  days :: int
  seconds :: int
  microseconds :: int

text \<open>
  \<^verbatim>\<open>timedelta(days, seconds, microseconds)\<close> on integers: the carries of the
  constructor (\<^verbatim>\<open>divmod\<close> rounds down, as \<open>div\<close> and \<open>mod\<close> on \<open>int\<close> do), and its
  range check \<^verbatim>\<open>abs(d) > 999999999\<close>.
\<close>

definition timedelta_new :: "int \<Rightarrow> int \<Rightarrow> int \<Rightarrow> py_error + timedelta" where
  "timedelta_new d s us =
     (let s1 = s + us div 1000000;
          us' = us mod 1000000;
          d' = d + s1 div 86400;
          s' = s1 mod 86400
      in if \<bar>d'\<bar> > 999999999 then Inl OverflowError
         else Inr \<lparr>days = d', seconds = s', microseconds = us'\<rparr>)"

text \<open>
  \<^verbatim>\<open>timedelta.__add__\<close>:
  \<^verbatim>\<open>timedelta(self._days + other._days, self._seconds + other._seconds,
            self._microseconds + other._microseconds)\<close>
\<close>

definition timedelta_add :: "timedelta \<Rightarrow> timedelta \<Rightarrow> py_error + timedelta" where
  "timedelta_add a b =
     timedelta_new (days a + days b) (seconds a + seconds b) (microseconds a + microseconds b)"

text \<open>The invariant of the class, which every value its constructor returns has.\<close>

definition timedelta_ok :: "timedelta \<Rightarrow> bool" where
  "timedelta_ok t \<longleftrightarrow>
     \<bar>days t\<bar> \<le> 999999999 \<and> 0 \<le> seconds t \<and> seconds t < 86400 \<and>
     0 \<le> microseconds t \<and> microseconds t < 1000000"

text \<open>\<^verbatim>\<open>timedelta.total_seconds()\<close>, rounded down to whole seconds.\<close>

definition whole_seconds :: "timedelta \<Rightarrow> int" where
  "whole_seconds t = days t * 86400 + seconds t"


section \<open>Escalation\<close>

text \<open>
  \<^verbatim>\<open>
  class Escalation(object):
      def __init__(self, ldap, delay_in_sec, notified_at=None):
          self.ldap = ldap
          self.delay_in_sec = delay_in_sec
          self._notified_at = pytz.utc.localize(notified_at) if notified_at else None
  \<close>
  The field \<open>notified_at\<close> is the attribute \<^verbatim>\<open>_notified_at\<close>. A datetime is always
  truthy, so the test \<^verbatim>\<open>if notified_at\<close> is the test for \<^verbatim>\<open>None\<close>.
\<close>

record Escalation =
  ldap :: string
  delay_in_sec :: int
  notified_at :: "datetime option"

definition Escalation_init :: "string \<Rightarrow> int \<Rightarrow> datetime option \<Rightarrow> py_error + Escalation" where
  "Escalation_init l d n =
     (case n of
        None \<Rightarrow> Inr \<lparr>ldap = l, delay_in_sec = d, notified_at = None\<rparr>
      | Some _ \<Rightarrow>
          (case utc_localize n of
             Inl e \<Rightarrow> Inl e
           | Inr dt \<Rightarrow> Inr \<lparr>ldap = l, delay_in_sec = d, notified_at = Some dt\<rparr>))"

text \<open>\<^verbatim>\<open>return self._notified_at is not None\<close>\<close>

definition is_notified :: "Escalation \<Rightarrow> bool" where
  "is_notified e \<longleftrightarrow> notified_at e \<noteq> None"

text \<open>\<^verbatim>\<open>self._notified_at = datetime.now(tz=pytz.utc)\<close>\<close>

definition set_notified :: "datetime \<Rightarrow> Escalation \<Rightarrow> Escalation" where
  "set_notified clock e = e\<lparr>notified_at := Some (datetime_now_utc clock)\<rparr>"

text \<open>\<^verbatim>\<open>return not self.is_notified() and elapsed_timedelta.seconds > self.delay_in_sec\<close>\<close>

definition should_notify :: "Escalation \<Rightarrow> timedelta \<Rightarrow> bool" where
  "should_notify e elapsed_timedelta \<longleftrightarrow>
     \<not> is_notified e \<and> seconds elapsed_timedelta > delay_in_sec e"

text \<open>
  A call of one of the three methods on an Escalation, and what it leaves: the value
  returned (\<open>None\<close> for \<^verbatim>\<open>set_notified\<close>, which returns nothing) and the object after
  the call.
\<close>

datatype esc_call =
  Call_is_notified
  | Call_should_notify timedelta
  | Call_set_notified datetime

fun call :: "Escalation \<Rightarrow> esc_call \<Rightarrow> bool option \<times> Escalation" where
  "call e Call_is_notified = (Some (is_notified e), e)"
| "call e (Call_should_notify el) = (Some (should_notify e el), e)"
| "call e (Call_set_notified clock) = (None, set_notified clock e)"

fun run :: "Escalation \<Rightarrow> esc_call list \<Rightarrow> Escalation" where
  "run e [] = e"
| "run e (c # cs) = run (snd (call e c)) cs"

text \<open>Whether a call is a call of \<^verbatim>\<open>set_notified\<close>, the one method that assigns.\<close>

fun is_set_call :: "esc_call \<Rightarrow> bool" where
  "is_set_call (Call_set_notified _) = True"
| "is_set_call _ = False"

text \<open>
  The timestamp of an Escalation as its constructor and \<^verbatim>\<open>set_notified\<close> leave it:
  \<^verbatim>\<open>None\<close>, or a datetime in UTC.
\<close>

definition Escalation_wf :: "Escalation \<Rightarrow> bool" where
  "Escalation_wf e \<longleftrightarrow> (case notified_at e of None \<Rightarrow> True | Some d \<Rightarrow> tzinfo d = Some UTC)"


section \<open>Task\<close>

text \<open>
  \<^verbatim>\<open>STATUS_LEVELS = enum('OPEN', 'INPROGRESS', 'VERIFICATION')\<close>

  Modelled from the spec: the helper \<^verbatim>\<open>securitybot.util.enum\<close> that builds the table is
  not among the sources. The spec's StatusEnum "provides three distinguishable symbolic
  values with stable identity for equality comparison"; the type comment of
  \<^verbatim>\<open>Task.__init__\<close> gives a status the type \<^verbatim>\<open>int\<close>. The three names are numbered in the
  order they are listed.
\<close>

definition STATUS_LEVELS_OPEN :: int where
  "STATUS_LEVELS_OPEN = 0"

definition STATUS_LEVELS_INPROGRESS :: int where
  "STATUS_LEVELS_INPROGRESS = 1"

definition STATUS_LEVELS_VERIFICATION :: int where
  "STATUS_LEVELS_VERIFICATION = 2"

text \<open>
  The attributes \<^verbatim>\<open>Task.__init__\<close> sets. An attribute that can hold \<^verbatim>\<open>None\<close> is an
  \<open>option\<close>.
\<close>

record Task =
  title :: string
  username :: string
  reason :: string
  description :: string
  url :: string
  performed :: bool
  comment :: string
  authenticated :: bool
  status :: int
  event_time :: "datetime option"
  escalation :: "Escalation option"

text \<open>
  \<^verbatim>\<open>
  def __init__(self, title, username, reason, description, url, performed, comment,
          authenticated, status, event_time=None, escalation=None):
      self.title = title
      ...
      self.status = status
      self.event_time = pytz.utc.localize(event_time)
      self.escalation = escalation
  \<close>
  An exception of \<^verbatim>\<open>localize\<close> leaves \<^verbatim>\<open>__init__\<close>, and no object is returned.
\<close>

definition Task_init ::
  "string \<Rightarrow> string \<Rightarrow> string \<Rightarrow> string \<Rightarrow> string \<Rightarrow> bool \<Rightarrow> string \<Rightarrow> bool \<Rightarrow> int \<Rightarrow>
   datetime option \<Rightarrow> Escalation option \<Rightarrow> py_error + Task" where
  "Task_init ti us re de ur pe co au st ev es =
     (case utc_localize ev of
        Inl e \<Rightarrow> Inl e
      | Inr dt \<Rightarrow>
          Inr \<lparr>title = ti, username = us, reason = re, description = de, url = ur,
               performed = pe, comment = co, authenticated = au, status = st,
               event_time = Some dt, escalation = es\<rparr>)"

text \<open>\<^verbatim>\<open>return self.status == STATUS_LEVELS.OPEN\<close>, and its two siblings.\<close>

definition is_open :: "Task \<Rightarrow> bool" where
  "is_open t \<longleftrightarrow> status t = STATUS_LEVELS_OPEN"

definition is_in_progress :: "Task \<Rightarrow> bool" where
  "is_in_progress t \<longleftrightarrow> status t = STATUS_LEVELS_INPROGRESS"

definition is_verifying :: "Task \<Rightarrow> bool" where
  "is_verifying t \<longleftrightarrow> status t = STATUS_LEVELS_VERIFICATION"

text \<open>
  Modelled from the spec: \<^verbatim>\<open>set_open\<close>, \<^verbatim>\<open>set_in_progress\<close> and \<^verbatim>\<open>set_verifying\<close> are
  abstract in tasker.py (their bodies are \<^verbatim>\<open>pass\<close>); the subclass that implements them
  is not among the sources. The spec: "\<^verbatim>\<open>set_open()\<close> -- transitions \<^verbatim>\<open>status\<close> to OPEN",
  "\<^verbatim>\<open>set_in_progress()\<close> -- transitions \<^verbatim>\<open>status\<close> to IN_PROGRESS",
  "\<^verbatim>\<open>set_verifying()\<close> -- transitions \<^verbatim>\<open>status\<close> to VERIFICATION". What they do to the
  storage behind the Tasker is outside this model.
\<close>

definition set_open :: "Task \<Rightarrow> Task" where
  "set_open t = t\<lparr>status := STATUS_LEVELS_OPEN\<rparr>"

definition set_in_progress :: "Task \<Rightarrow> Task" where
  "set_in_progress t = t\<lparr>status := STATUS_LEVELS_INPROGRESS\<rparr>"

definition set_verifying :: "Task \<Rightarrow> Task" where
  "set_verifying t = t\<lparr>status := STATUS_LEVELS_VERIFICATION\<rparr>"


section \<open>String representations\<close>

text \<open>
  \<^verbatim>\<open>Task.__str__\<close> and \<^verbatim>\<open>Escalation.__repr__\<close> both return \<^verbatim>\<open>str(self.__dict__)\<close>: the
  \<^verbatim>\<open>repr\<close> of a dict, which is the \<^verbatim>\<open>repr\<close> of every key and value. The values an
  attribute holds are strings, booleans, integers, \<^verbatim>\<open>None\<close>, datetimes and, in a Task, an
  Escalation.
\<close>

datatype py_atom = PyStr string | PyBool bool | PyInt int | PyNone | PyDatetime datetime

datatype py_value = Atom py_atom | Object Escalation

text \<open>
  The \<^verbatim>\<open>repr\<close> of a byte string (the module is Python 2): single quotes, unless the string
  has a single quote and no double quote; the quote and the backslash escaped; tab,
  newline and return by letter; every other byte outside the printable ASCII range as
  \<^verbatim>\<open>\xNN\<close>.
\<close>

definition hex_digit :: "nat \<Rightarrow> char" where
  "hex_digit n = (if n < 10 then char_of (48 + n) else char_of (87 + n))"

definition quote_of :: "string \<Rightarrow> char" where
  "quote_of s = (if CHR 0x27 \<in> set s \<and> CHR 0x22 \<notin> set s then CHR 0x22 else CHR 0x27)"

definition escape_char :: "char \<Rightarrow> char \<Rightarrow> string" where
  "escape_char q c =
     (if c = q \<or> c = CHR 0x5C then [CHR 0x5C, c]
      else if c = CHR 0x09 then [CHR 0x5C, CHR ''t'']
      else if c = CHR 0x0A then [CHR 0x5C, CHR ''n'']
      else if c = CHR 0x0D then [CHR 0x5C, CHR ''r'']
      else if (of_char c :: nat) < 32 \<or> (of_char c :: nat) \<ge> 127
        then [CHR 0x5C, CHR ''x'', hex_digit (of_char c div 16), hex_digit (of_char c mod 16)]
      else [c])"

definition str_repr :: "string \<Rightarrow> string" where
  "str_repr s = (let q = quote_of s in [q] @ concat (map (escape_char q) s) @ [q])"

text \<open>The \<^verbatim>\<open>repr\<close> of an integer: its decimal digits, with a minus sign below zero.\<close>

fun digits :: "nat \<Rightarrow> string" where
  "digits n = (if n < 10 then [char_of (48 + n)] else digits (n div 10) @ [char_of (48 + n mod 10)])"

declare digits.simps [simp del]

definition int_repr :: "int \<Rightarrow> string" where
  "int_repr i = (if i < 0 then CHR ''-'' # digits (nat (- i)) else digits (nat i))"

text \<open>\<^verbatim>\<open>sep.join(xs)\<close>\<close>

fun join :: "string \<Rightarrow> string list \<Rightarrow> string" where
  "join sep [] = []"
| "join sep [x] = x"
| "join sep (x # y # ys) = x @ sep @ join sep (y # ys)"

text \<open>
  The \<^verbatim>\<open>repr\<close> of a datetime: the second is left out when it and the microsecond are
  zero, the microsecond when it is zero; a zone is added as \<^verbatim>\<open>tzinfo=...\<close>, and the
  \<^verbatim>\<open>repr\<close> of \<^verbatim>\<open>pytz.utc\<close> is \<^verbatim>\<open><UTC>\<close>.
\<close>

definition tz_repr :: "tz \<Rightarrow> string" where
  "tz_repr z = (case z of UTC \<Rightarrow> ''<UTC>'' | Zone r \<Rightarrow> r)"

definition datetime_repr :: "datetime \<Rightarrow> string" where
  "datetime_repr d =
     ''datetime.datetime(''
     @ join '', ''
         (map int_repr
            ([year d, month d, day d, hour d, minute d]
             @ (if microsecond d \<noteq> 0 then [second d, microsecond d]
                else if second d \<noteq> 0 then [second d] else [])))
     @ (case tzinfo d of None \<Rightarrow> [] | Some z \<Rightarrow> '', tzinfo='' @ tz_repr z)
     @ '')''"

fun atom_repr :: "py_atom \<Rightarrow> string" where
  "atom_repr (PyStr s) = str_repr s"
| "atom_repr (PyBool b) = (if b then ''True'' else ''False'')"
| "atom_repr (PyInt i) = int_repr i"
| "atom_repr PyNone = ''None''"
| "atom_repr (PyDatetime d) = datetime_repr d"

text \<open>
  The \<^verbatim>\<open>repr\<close> of a dict, from its items: \<^verbatim>\<open>{k1: v1, k2: v2}\<close>, every key and value
  by its own \<^verbatim>\<open>repr\<close>. The items are listed in the order the attributes were set.
\<close>

definition item_repr :: "('v \<Rightarrow> string) \<Rightarrow> string \<times> 'v \<Rightarrow> string" where
  "item_repr r kv = str_repr (fst kv) @ '': '' @ r (snd kv)"

definition dict_repr :: "('v \<Rightarrow> string) \<Rightarrow> (string \<times> 'v) list \<Rightarrow> string" where
  "dict_repr r items = ''{'' @ join '', '' (map (item_repr r) items) @ ''}''"

definition opt_datetime :: "datetime option \<Rightarrow> py_atom" where
  "opt_datetime d = (case d of None \<Rightarrow> PyNone | Some dt \<Rightarrow> PyDatetime dt)"

text \<open>\<^verbatim>\<open>Escalation.__dict__\<close> and \<^verbatim>\<open>Escalation.__repr__\<close>\<close>

definition Escalation_dict :: "Escalation \<Rightarrow> (string \<times> py_atom) list" where
  "Escalation_dict e =
     [(''ldap'', PyStr (ldap e)),
      (''delay_in_sec'', PyInt (delay_in_sec e)),
      (''_notified_at'', opt_datetime (notified_at e))]"

definition Escalation_repr :: "Escalation \<Rightarrow> string" where
  "Escalation_repr e = dict_repr atom_repr (Escalation_dict e)"

fun value_repr :: "py_value \<Rightarrow> string" where
  "value_repr (Atom a) = atom_repr a"
| "value_repr (Object e) = Escalation_repr e"

definition opt_escalation :: "Escalation option \<Rightarrow> py_value" where
  "opt_escalation e = (case e of None \<Rightarrow> Atom PyNone | Some x \<Rightarrow> Object x)"

text \<open>\<^verbatim>\<open>Task.__dict__\<close> and \<^verbatim>\<open>Task.__str__\<close>\<close>

definition Task_dict :: "Task \<Rightarrow> (string \<times> py_value) list" where
  "Task_dict t =
     [(''title'', Atom (PyStr (title t))),
      (''username'', Atom (PyStr (username t))),
      (''reason'', Atom (PyStr (reason t))),
      (''description'', Atom (PyStr (description t))),
      (''url'', Atom (PyStr (url t))),
      (''performed'', Atom (PyBool (performed t))),
      (''comment'', Atom (PyStr (comment t))),
      (''authenticated'', Atom (PyBool (authenticated t))),
      (''status'', Atom (PyInt (status t))),
      (''event_time'', Atom (opt_datetime (event_time t))),
      (''escalation'', opt_escalation (escalation t))]"

definition Task_str :: "Task \<Rightarrow> string" where
  "Task_str t = dict_repr value_repr (Task_dict t)"


section \<open>Properties of the library model\<close>

lemma timedelta_new_ok:
  assumes "timedelta_new d s us = Inr t"
  shows "timedelta_ok t"
proof -
  let ?s1 = "s + us div 1000000"
  from assms have small: "\<bar>d + ?s1 div 86400\<bar> \<le> 999999999"
    by (simp add: timedelta_new_def Let_def split: if_splits)
  from assms have t: "t = \<lparr>days = d + ?s1 div 86400, seconds = ?s1 mod 86400,
      microseconds = us mod 1000000\<rparr>"
    by (simp add: timedelta_new_def Let_def split: if_splits)
  show ?thesis
    unfolding timedelta_ok_def using small by (simp add: t)
qed

lemma timedelta_new_seconds:
  assumes "timedelta_new d s us = Inr t"
  shows "seconds t = (s + us div 1000000) mod 86400"
  using assms by (auto simp: timedelta_new_def Let_def split: if_splits)

lemma timedelta_new_normal:
  assumes "timedelta_ok t"
  shows "timedelta_new (days t) (seconds t) (microseconds t) = Inr t"
  using assms by (simp add: timedelta_new_def timedelta_ok_def Let_def)

lemma timedelta_days_only:
  assumes "timedelta_new k 0 0 = Inr kd"
  shows "kd = \<lparr>days = k, seconds = 0, microseconds = 0\<rparr>"
  using assms by (simp add: timedelta_new_def split: if_splits)

lemma timedelta_add_days_seconds:
  assumes ok: "timedelta_ok e"
    and sum: "timedelta_add e \<lparr>days = k, seconds = 0, microseconds = 0\<rparr> = Inr e'"
  shows "seconds e' = seconds e"
proof -
  from ok have us: "microseconds e div 1000000 = 0"
    by (simp add: timedelta_ok_def)
  from ok have s: "seconds e mod 86400 = seconds e"
    by (simp add: timedelta_ok_def)
  from sum have "seconds e' = (seconds e + 0 + (microseconds e + 0) div 1000000) mod 86400"
    unfolding timedelta_add_def by (simp add: timedelta_new_seconds)
  with us s show ?thesis by simp
qed


section \<open>Sequences of calls on an Escalation\<close>

lemma run_append: "run e (cs @ cs') = run (run e cs) cs'"
  by (induction cs arbitrary: e) simp_all

lemma is_notified_call:
  assumes "is_notified e"
  shows "is_notified (snd (call e c))"
  using assms by (cases c) (simp_all add: is_notified_def set_notified_def)

lemma is_notified_run:
  assumes "is_notified e"
  shows "is_notified (run e cs)"
  using assms
proof (induction cs arbitrary: e)
  case Nil
  then show ?case by simp
next
  case (Cons c cs)
  from Cons.prems have "is_notified (snd (call e c))" by (rule is_notified_call)
  then have "is_notified (run (snd (call e c)) cs)" by (rule Cons.IH)
  then show ?case by simp
qed

lemma is_notified_set_notified: "is_notified (set_notified clock e)"
  by (simp add: is_notified_def set_notified_def)

text \<open>\<^verbatim>\<open>is_notified\<close> and \<^verbatim>\<open>should_notify\<close> assign nothing.\<close>

lemma run_without_set:
  assumes "\<not> list_ex is_set_call cs"
  shows "run e cs = e"
  using assms
proof (induction cs)
  case Nil
  then show ?case by simp
next
  case (Cons c cs)
  then show ?case by (cases c) simp_all
qed


text \<open>The constructor and the three methods keep the timestamp \<^verbatim>\<open>None\<close> or in UTC.\<close>

lemma Escalation_init_wf:
  assumes "Escalation_init l d n = Inr e"
  shows "Escalation_wf e"
  using assms
  by (auto simp: Escalation_init_def utc_localize_def Escalation_wf_def
      split: option.splits if_splits)

lemma set_notified_wf: "Escalation_wf (set_notified clock e)"
  by (simp add: set_notified_def datetime_now_utc_def Escalation_wf_def)

lemma run_wf:
  assumes "Escalation_wf e"
  shows "Escalation_wf (run e cs)"
  using assms
proof (induction cs arbitrary: e)
  case Nil
  then show ?case by simp
next
  case (Cons c cs)
  from Cons.prems have "Escalation_wf (snd (call e c))"
    by (cases c) (simp_all add: set_notified_wf)
  then show ?case by (simp add: Cons.IH)
qed


section \<open>The escalation decision\<close>

text \<open>
  For an elapsed time from zero up to one day, the \<^verbatim>\<open>seconds\<close> field is the whole elapsed
  time, and the decision is the comparison of the elapsed whole seconds with the delay.
\<close>

lemma should_notify_within_a_day:
  assumes "days el = 0"
  shows "should_notify e el \<longleftrightarrow> \<not> is_notified e \<and> whole_seconds el > delay_in_sec e"
  using assms by (simp add: should_notify_def whole_seconds_def)

text \<open>
  C1: \<^verbatim>\<open>should_notify(elapsed)\<close> is claimed true exactly when the escalation is not yet
  notified and the elapsed time is more than \<^verbatim>\<open>delay_in_sec\<close> seconds, and false for an
  elapsed time of \<open>D - 1\<close> seconds at delay \<open>D = 0\<close>. The method reads the field
  \<^verbatim>\<open>elapsed_timedelta.seconds\<close>, which leaves the days out. For an unnotified escalation
  with a delay of 60 seconds and an elapsed time of one day (86400 seconds) the method
  returns False; with a delay of 0 and an elapsed time of minus one second, which is
  stored as \<open>- 1\<close> day and 86399 seconds, it returns True.
\<close>

theorem should_notify_drops_days:
  "Escalation_init ''bob'' 60 None = Inr \<lparr>ldap = ''bob'', delay_in_sec = 60, notified_at = None\<rparr>
   \<and> timedelta_new 1 0 0 = Inr \<lparr>days = 1, seconds = 0, microseconds = 0\<rparr>
   \<and> whole_seconds \<lparr>days = 1, seconds = 0, microseconds = 0\<rparr> = 86400
   \<and> should_notify \<lparr>ldap = ''bob'', delay_in_sec = 60, notified_at = None\<rparr>
        \<lparr>days = 1, seconds = 0, microseconds = 0\<rparr> = False
   \<and> timedelta_new 0 (- 1) 0 = Inr \<lparr>days = - 1, seconds = 86399, microseconds = 0\<rparr>
   \<and> whole_seconds \<lparr>days = - 1, seconds = 86399, microseconds = 0\<rparr> = - 1
   \<and> should_notify \<lparr>ldap = ''bob'', delay_in_sec = 0, notified_at = None\<rparr>
        \<lparr>days = - 1, seconds = 86399, microseconds = 0\<rparr> = True"
  by (simp add: Escalation_init_def timedelta_new_def whole_seconds_def should_notify_def
      is_notified_def)

text \<open>
  C3: the result of \<^verbatim>\<open>should_notify\<close> depends on the \<^verbatim>\<open>seconds\<close> field of the elapsed
  time only, not on its days: for every elapsed time \<open>e\<close> and every whole number \<open>k\<close> of
  days for which \<open>e + k\<close> days is a timedelta, \<^verbatim>\<open>should_notify\<close> answers the same on both;
  and an elapsed time of exactly two days gives False for every delay that is not
  negative.
\<close>

theorem should_notify_days_invariant:
  "(timedelta_ok e \<and> timedelta_new k 0 0 = Inr kd \<and> timedelta_add e kd = Inr e'
      \<longrightarrow> should_notify esc e' = should_notify esc e)
   \<and> (0 \<le> delay_in_sec esc
      \<longrightarrow> (\<exists>td. timedelta_new 2 0 0 = Inr td \<and> \<not> should_notify esc td))"
proof (intro conjI impI)
  assume a: "timedelta_ok e \<and> timedelta_new k 0 0 = Inr kd \<and> timedelta_add e kd = Inr e'"
  then have "kd = \<lparr>days = k, seconds = 0, microseconds = 0\<rparr>"
    by (simp add: timedelta_days_only)
  with a have "seconds e' = seconds e"
    using timedelta_add_days_seconds [of e k e'] by simp
  then show "should_notify esc e' = should_notify esc e"
    by (simp add: should_notify_def)
next
  assume d: "0 \<le> delay_in_sec esc"
  have two: "timedelta_new 2 0 0 = Inr \<lparr>days = 2, seconds = 0, microseconds = 0\<rparr>"
    by (simp add: timedelta_new_def)
  from d have "\<not> should_notify esc \<lparr>days = 2, seconds = 0, microseconds = 0\<rparr>"
    by (simp add: should_notify_def)
  with two show "\<exists>td. timedelta_new 2 0 0 = Inr td \<and> \<not> should_notify esc td"
    by blast
qed

theorem should_notify_days_invariant_witness:
  "timedelta_ok \<lparr>days = 0, seconds = 10, microseconds = 0\<rparr>
   \<and> timedelta_new 3 0 0 = Inr \<lparr>days = 3, seconds = 0, microseconds = 0\<rparr>
   \<and> timedelta_add \<lparr>days = 0, seconds = 10, microseconds = 0\<rparr>
        \<lparr>days = 3, seconds = 0, microseconds = 0\<rparr>
       = Inr \<lparr>days = 3, seconds = 10, microseconds = 0\<rparr>
   \<and> should_notify \<lparr>ldap = ''bob'', delay_in_sec = 5, notified_at = None\<rparr>
        \<lparr>days = 3, seconds = 10, microseconds = 0\<rparr>
       = should_notify \<lparr>ldap = ''bob'', delay_in_sec = 5, notified_at = None\<rparr>
           \<lparr>days = 0, seconds = 10, microseconds = 0\<rparr>
   \<and> 0 \<le> delay_in_sec \<lparr>ldap = ''bob'', delay_in_sec = 5, notified_at = None\<rparr>
   \<and> (\<exists>td. timedelta_new 2 0 0 = Inr td
         \<and> \<not> should_notify \<lparr>ldap = ''bob'', delay_in_sec = 5, notified_at = None\<rparr> td)"
proof -
  let ?e = "\<lparr>days = 0, seconds = 10, microseconds = 0\<rparr>"
  let ?kd = "\<lparr>days = 3, seconds = 0, microseconds = 0\<rparr>"
  let ?e' = "\<lparr>days = 3, seconds = 10, microseconds = 0\<rparr>"
  let ?esc = "\<lparr>ldap = ''bob'', delay_in_sec = 5, notified_at = None\<rparr>"
  have ok: "timedelta_ok ?e"
    by (simp add: timedelta_ok_def)
  have kd: "timedelta_new 3 0 0 = Inr ?kd"
    by (simp add: timedelta_new_def)
  have sum: "timedelta_add ?e ?kd = Inr ?e'"
    by (simp add: timedelta_add_def timedelta_new_def)
  have delay: "0 \<le> delay_in_sec ?esc"
    by simp
  from should_notify_days_invariant [of ?e 3 ?kd ?e' ?esc] ok kd sum delay
  show ?thesis by blast
qed

text \<open>
  C5: after \<^verbatim>\<open>set_notified()\<close>, and after any further calls of the three methods,
  \<^verbatim>\<open>is_notified()\<close> returns True and \<^verbatim>\<open>should_notify(elapsed)\<close> returns False for every
  elapsed time, also for one beyond the delay.
\<close>

theorem notified_stays_notified:
  "fst (call (run (set_notified clock e) cs) Call_is_notified) = Some True
   \<and> fst (call (run (set_notified clock e) cs) (Call_should_notify el)) = Some False"
proof -
  have "is_notified (run (set_notified clock e) cs)"
    by (rule is_notified_run) (rule is_notified_set_notified)
  then show ?thesis by (simp add: should_notify_def)
qed

text \<open>
  C6, as stated, fails for a delay of zero: the comparison is strict, so an unnotified
  escalation with delay 0 answers False at an elapsed time of zero.
\<close>

theorem zero_delay_not_immediate:
  "Escalation_init ''bob'' 0 None = Inr \<lparr>ldap = ''bob'', delay_in_sec = 0, notified_at = None\<rparr>
   \<and> timedelta_new 0 0 0 = Inr \<lparr>days = 0, seconds = 0, microseconds = 0\<rparr>
   \<and> \<not> is_notified \<lparr>ldap = ''bob'', delay_in_sec = 0, notified_at = None\<rparr>
   \<and> \<not> should_notify \<lparr>ldap = ''bob'', delay_in_sec = 0, notified_at = None\<rparr>
         \<lparr>days = 0, seconds = 0, microseconds = 0\<rparr>"
  by (simp add: Escalation_init_def timedelta_new_def should_notify_def is_notified_def)

text \<open>
  C6, amended: constructing an Escalation with a negative or zero \<^verbatim>\<open>delay_in_sec\<close>
  succeeds and gives an unnotified escalation. As long as \<^verbatim>\<open>set_notified\<close> is not called,
  with a negative delay \<^verbatim>\<open>should_notify\<close> returns True for every elapsed time; with a
  delay of zero and an elapsed time from zero up to one day, it returns True exactly when
  at least one whole second has elapsed.
\<close>

theorem nonpositive_delay_escalation:
  assumes "d \<le> 0" and "timedelta_ok el" and "\<not> list_ex is_set_call cs"
  shows "\<exists>e. Escalation_init l d None = Inr e \<and> \<not> is_notified e
           \<and> (d < 0 \<longrightarrow> should_notify (run e cs) el)
           \<and> (d = 0 \<and> days el = 0 \<longrightarrow> should_notify (run e cs) el = (1 \<le> whole_seconds el))"
proof -
  let ?e = "\<lparr>ldap = l, delay_in_sec = d, notified_at = None\<rparr>"
  have init: "Escalation_init l d None = Inr ?e"
    by (simp add: Escalation_init_def)
  have fresh: "\<not> is_notified ?e"
    by (simp add: is_notified_def)
  from assms(3) have same: "run ?e cs = ?e"
    by (rule run_without_set)
  from assms(2) have "0 \<le> seconds el"
    by (simp add: timedelta_ok_def)
  then have neg: "d < 0 \<longrightarrow> should_notify (run ?e cs) el"
    unfolding same using fresh by (simp add: should_notify_def)
  have zero: "d = 0 \<and> days el = 0 \<longrightarrow> should_notify (run ?e cs) el = (1 \<le> whole_seconds el)"
    unfolding same using fresh by (auto simp: should_notify_def whole_seconds_def)
  from init fresh neg zero show ?thesis by blast
qed

theorem nonpositive_delay_escalation_witness:
  "(\<exists>e. Escalation_init ''bob'' (- 5) None = Inr e \<and> \<not> is_notified e
       \<and> should_notify
           (run e [Call_is_notified,
                   Call_should_notify \<lparr>days = 0, seconds = 0, microseconds = 0\<rparr>])
           \<lparr>days = 0, seconds = 0, microseconds = 0\<rparr>)
   \<and> (\<exists>e. Escalation_init ''bob'' 0 None = Inr e \<and> \<not> is_notified e
       \<and> should_notify (run e [Call_is_notified])
           \<lparr>days = 0, seconds = 1, microseconds = 0\<rparr>)"
proof -
  let ?z = "\<lparr>days = 0, seconds = 0, microseconds = 0\<rparr>"
  let ?one = "\<lparr>days = 0, seconds = 1, microseconds = 0\<rparr>"
  have okz: "timedelta_ok ?z" and ok1: "timedelta_ok ?one"
    by (simp_all add: timedelta_ok_def)
  have quiet: "\<not> list_ex is_set_call [Call_is_notified, Call_should_notify ?z]"
      "\<not> list_ex is_set_call [Call_is_notified]"
    by simp_all
  have neg: "(- 5 :: int) \<le> 0" "(- 5 :: int) < 0" and zero: "(0 :: int) \<le> 0"
    by simp_all
  have sec: "days ?one = 0" "1 \<le> whole_seconds ?one"
    by (simp_all add: whole_seconds_def)
  from nonpositive_delay_escalation [OF neg(1) okz quiet(1), of "''bob''"] neg(2)
  have first: "\<exists>e. Escalation_init ''bob'' (- 5) None = Inr e \<and> \<not> is_notified e
       \<and> should_notify (run e [Call_is_notified, Call_should_notify ?z]) ?z"
    by blast
  from nonpositive_delay_escalation [OF zero ok1 quiet(2), of "''bob''"] sec
  have second: "\<exists>e. Escalation_init ''bob'' 0 None = Inr e \<and> \<not> is_notified e
       \<and> should_notify (run e [Call_is_notified]) ?one"
    by blast
  from first second show ?thesis by blast
qed

text \<open>
  C8: under any sequence of calls of \<^verbatim>\<open>is_notified\<close>, \<^verbatim>\<open>should_notify\<close> and
  \<^verbatim>\<open>set_notified\<close>, once \<^verbatim>\<open>is_notified()\<close> is true it stays true: the timestamp is never
  set back to \<^verbatim>\<open>None\<close>.
\<close>

theorem is_notified_monotonic:
  assumes "is_notified (run e cs)"
  shows "is_notified (run e (cs @ cs'))"
  using assms by (simp add: run_append is_notified_run)

theorem is_notified_monotonic_witness:
  "is_notified
     (run \<lparr>ldap = ''bob'', delay_in_sec = 300, notified_at = None\<rparr>
        [Call_set_notified
           \<lparr>year = 2017, month = 1, day = 2, hour = 3, minute = 4, second = 5,
            microsecond = 0, tzinfo = None\<rparr>])
   \<and> is_notified
     (run \<lparr>ldap = ''bob'', delay_in_sec = 300, notified_at = None\<rparr>
        ([Call_set_notified
           \<lparr>year = 2017, month = 1, day = 2, hour = 3, minute = 4, second = 5,
            microsecond = 0, tzinfo = None\<rparr>]
         @ [Call_should_notify \<lparr>days = 0, seconds = 9999, microseconds = 0\<rparr>,
            Call_is_notified]))"
proof -
  let ?e = "\<lparr>ldap = ''bob'', delay_in_sec = 300, notified_at = None\<rparr>"
  let ?cs = "[Call_set_notified
           \<lparr>year = 2017, month = 1, day = 2, hour = 3, minute = 4, second = 5,
            microsecond = 0, tzinfo = None\<rparr>]"
  have set: "is_notified (run ?e ?cs)"
    by (simp add: is_notified_def set_notified_def)
  from is_notified_monotonic [OF set] set show ?thesis by blast
qed


section \<open>Tasks\<close>

text \<open>
  C2: constructing a Task without an \<^verbatim>\<open>event_time\<close> raises an error, and no Task that
  the constructor returns has its \<^verbatim>\<open>event_time\<close> unset.
\<close>

theorem Task_init_needs_event_time:
  "Task_init ti us re de ur pe co au st None es = Inl AttributeError
   \<and> (\<forall>ev t. Task_init ti us re de ur pe co au st ev es = Inr t \<longrightarrow> event_time t \<noteq> None)"
  by (auto simp: Task_init_def utc_localize_def split: option.splits if_splits sum.splits)

theorem Task_init_needs_event_time_witness:
  "Task_init ''T'' ''alice'' ''r'' ''d'' ''u'' True ''c'' False 0 None None = Inl AttributeError
   \<and> Task_init ''T'' ''alice'' ''r'' ''d'' ''u'' True ''c'' False 0
       (Some \<lparr>year = 2017, month = 1, day = 2, hour = 3, minute = 4, second = 5,
              microsecond = 0, tzinfo = None\<rparr>) None
     = Inr \<lparr>title = ''T'', username = ''alice'', reason = ''r'', description = ''d'',
            url = ''u'', performed = True, comment = ''c'', authenticated = False,
            status = 0,
            event_time = Some \<lparr>year = 2017, month = 1, day = 2, hour = 3, minute = 4,
              second = 5, microsecond = 0, tzinfo = Some UTC\<rparr>,
            escalation = None\<rparr>
   \<and> event_time \<lparr>title = ''T'', username = ''alice'', reason = ''r'', description = ''d'',
            url = ''u'', performed = True, comment = ''c'', authenticated = False,
            status = 0,
            event_time = Some \<lparr>year = 2017, month = 1, day = 2, hour = 3, minute = 4,
              second = 5, microsecond = 0, tzinfo = Some UTC\<rparr>,
            escalation = None\<rparr> \<noteq> None"
proof -
  let ?dt = "\<lparr>year = 2017, month = 1, day = 2, hour = 3, minute = 4, second = 5,
              microsecond = 0, tzinfo = None\<rparr>"
  let ?t = "\<lparr>title = ''T'', username = ''alice'', reason = ''r'', description = ''d'',
            url = ''u'', performed = True, comment = ''c'', authenticated = False,
            status = 0,
            event_time = Some \<lparr>year = 2017, month = 1, day = 2, hour = 3, minute = 4,
              second = 5, microsecond = 0, tzinfo = Some UTC\<rparr>,
            escalation = None\<rparr>"
  have made: "Task_init ''T'' ''alice'' ''r'' ''d'' ''u'' True ''c'' False 0 (Some ?dt) None
      = Inr ?t"
    by (simp add: Task_init_def utc_localize_def)
  note inst = Task_init_needs_event_time
      [of "''T''" "''alice''" "''r''" "''d''" "''u''" True "''c''" False 0 None]
  from inst have absent:
    "Task_init ''T'' ''alice'' ''r'' ''d'' ''u'' True ''c'' False 0 None None = Inl AttributeError"
    by (rule conjunct1)
  from inst made have "event_time ?t \<noteq> None"
    by blast
  with absent made show ?thesis by blast
qed

text \<open>
  C10: for every timestamp that already has a time zone, constructing a Task with it as
  \<^verbatim>\<open>event_time\<close> raises an error (the ValueError of \<^verbatim>\<open>pytz.utc.localize\<close>, which takes
  naive values only).
\<close>

theorem Task_init_rejects_aware:
  assumes "tzinfo t \<noteq> None"
  shows "Task_init ti us re de ur pe co au st (Some t) es = Inl ValueError"
  using assms by (simp add: Task_init_def utc_localize_def)

theorem Task_init_rejects_aware_witness:
  "tzinfo \<lparr>year = 2017, month = 1, day = 2, hour = 3, minute = 4, second = 5,
           microsecond = 0, tzinfo = Some UTC\<rparr> \<noteq> None
   \<and> Task_init ''T'' ''alice'' ''r'' ''d'' ''u'' True ''c'' False 0
       (Some \<lparr>year = 2017, month = 1, day = 2, hour = 3, minute = 4, second = 5,
              microsecond = 0, tzinfo = Some UTC\<rparr>) None
     = Inl ValueError"
proof -
  let ?dt = "\<lparr>year = 2017, month = 1, day = 2, hour = 3, minute = 4, second = 5,
           microsecond = 0, tzinfo = Some UTC\<rparr>"
  have zoned: "tzinfo ?dt \<noteq> None"
    by simp
  from Task_init_rejects_aware [OF zoned] zoned show ?thesis by blast
qed

text \<open>
  C4: for every Task whose status is one of OPEN, INPROGRESS and VERIFICATION, exactly
  one of \<^verbatim>\<open>is_open()\<close>, \<^verbatim>\<open>is_in_progress()\<close> and \<^verbatim>\<open>is_verifying()\<close> is true.
\<close>

theorem status_predicates_partition:
  assumes "status t \<in> {STATUS_LEVELS_OPEN, STATUS_LEVELS_INPROGRESS, STATUS_LEVELS_VERIFICATION}"
  shows "length (filter id [is_open t, is_in_progress t, is_verifying t]) = 1"
  using assms
  by (auto simp: is_open_def is_in_progress_def is_verifying_def STATUS_LEVELS_OPEN_def
      STATUS_LEVELS_INPROGRESS_def STATUS_LEVELS_VERIFICATION_def)

theorem status_predicates_partition_witness:
  "status \<lparr>title = ''T'', username = ''alice'', reason = ''r'', description = ''d'',
           url = ''u'', performed = True, comment = ''c'', authenticated = False,
           status = 1, event_time = None, escalation = None\<rparr>
     \<in> {STATUS_LEVELS_OPEN, STATUS_LEVELS_INPROGRESS, STATUS_LEVELS_VERIFICATION}
   \<and> length (filter id
       [is_open \<lparr>title = ''T'', username = ''alice'', reason = ''r'', description = ''d'',
           url = ''u'', performed = True, comment = ''c'', authenticated = False,
           status = 1, event_time = None, escalation = None\<rparr>,
        is_in_progress \<lparr>title = ''T'', username = ''alice'', reason = ''r'', description = ''d'',
           url = ''u'', performed = True, comment = ''c'', authenticated = False,
           status = 1, event_time = None, escalation = None\<rparr>,
        is_verifying \<lparr>title = ''T'', username = ''alice'', reason = ''r'', description = ''d'',
           url = ''u'', performed = True, comment = ''c'', authenticated = False,
           status = 1, event_time = None, escalation = None\<rparr>]) = 1"
proof -
  let ?t = "\<lparr>title = ''T'', username = ''alice'', reason = ''r'', description = ''d'',
           url = ''u'', performed = True, comment = ''c'', authenticated = False,
           status = 1, event_time = None, escalation = None\<rparr>"
  have known: "status ?t
      \<in> {STATUS_LEVELS_OPEN, STATUS_LEVELS_INPROGRESS, STATUS_LEVELS_VERIFICATION}"
    by (simp add: STATUS_LEVELS_INPROGRESS_def)
  from status_predicates_partition [OF known] known show ?thesis by blast
qed

text \<open>
  C7: \<^verbatim>\<open>set_open()\<close> and then \<^verbatim>\<open>is_open()\<close> gives True, and likewise
  \<^verbatim>\<open>set_in_progress()\<close> with \<^verbatim>\<open>is_in_progress()\<close> and \<^verbatim>\<open>set_verifying()\<close> with
  \<^verbatim>\<open>is_verifying()\<close>.
\<close>

theorem set_then_is:
  "is_open (set_open t) \<and> is_in_progress (set_in_progress t) \<and> is_verifying (set_verifying t)"
  by (simp add: is_open_def is_in_progress_def is_verifying_def set_open_def
      set_in_progress_def set_verifying_def)


section \<open>The \<^verbatim>\<open>repr\<close> of strings and integers loses nothing\<close>

text \<open>
  The escapes of \<^verbatim>\<open>repr\<close> form a prefix code, so the text of a string's \<^verbatim>\<open>repr\<close> gives
  the string back; the decimal digits give the integer back.
\<close>

lemma hex_digit_inject:
  assumes "a < 16" and "b < 16" and "hex_digit a = hex_digit b"
  shows "a = b"
  using assms unfolding hex_digit_def
  by (auto simp: char_of_eq_iff take_bit_eq_mod split: if_splits)

lemma hex_pair_inject:
  assumes hi: "hex_digit (of_char c div 16) = hex_digit (of_char d div 16)"
    and lo: "hex_digit (of_char c mod 16) = hex_digit (of_char d mod 16)"
  shows "c = d"
proof -
  have c: "(of_char c :: nat) < 256" and d: "(of_char d :: nat) < 256"
    by (rule nat_of_char_less_256)+
  have small: "n div 16 < 16" if "n < 256" for n :: nat
    using that by arith
  from c have ch: "(of_char c :: nat) div 16 < 16" by (rule small)
  from d have dh: "(of_char d :: nat) div 16 < 16" by (rule small)
  have cl: "(of_char c :: nat) mod 16 < 16" and dl: "(of_char d :: nat) mod 16 < 16"
    by simp_all
  from ch dh hi have "(of_char c :: nat) div 16 = of_char d div 16"
    by (rule hex_digit_inject)
  moreover from cl dl lo have "(of_char c :: nat) mod 16 = of_char d mod 16"
    by (rule hex_digit_inject)
  ultimately have "(of_char c :: nat) = of_char d"
    by (metis div_mult_mod_eq)
  then show ?thesis by (rule of_char_eqI)
qed

lemma quote_of_cases: "quote_of s = CHR 0x27 \<or> quote_of s = CHR 0x22"
  by (simp add: quote_of_def)

lemma escape_char_prefix_code:
  assumes q: "q = CHR 0x27 \<or> q = CHR 0x22"
    and eq: "escape_char q c @ xs = escape_char q d @ ys"
  shows "c = d \<and> xs = ys"
proof -
  consider (x) "length (escape_char q c) = 4" "length (escape_char q d) = 4"
    | (other) "length (escape_char q c) \<noteq> 4 \<or> length (escape_char q d) \<noteq> 4"
    by blast
  then show ?thesis
  proof cases
    case x
    then have "escape_char q c = [CHR 0x5C, CHR ''x'', hex_digit (of_char c div 16), hex_digit (of_char c mod 16)]"
      "escape_char q d = [CHR 0x5C, CHR ''x'', hex_digit (of_char d div 16), hex_digit (of_char d mod 16)]"
      by (auto simp: escape_char_def split: if_splits)
    with eq show ?thesis by (auto intro: hex_pair_inject)
  next
    case other
    with q eq show ?thesis
      by (auto simp: escape_char_def split: if_splits)
  qed
qed


lemma escape_char_nonempty: "escape_char q c \<noteq> []"
  by (simp add: escape_char_def)

lemma escaped_inject:
  assumes q: "q = CHR 0x27 \<or> q = CHR 0x22"
    and eq: "concat (map (escape_char q) s) = concat (map (escape_char q) t)"
  shows "s = t"
  using eq
proof (induction s arbitrary: t)
  case Nil
  then show ?case by (cases t) (simp_all add: escape_char_nonempty)
next
  case (Cons c s)
  show ?case
  proof (cases t)
    case Nil
    with Cons.prems show ?thesis by (simp add: escape_char_nonempty)
  next
    case (Cons d t')
    with Cons.prems have "escape_char q c @ concat (map (escape_char q) s)
        = escape_char q d @ concat (map (escape_char q) t')"
      by simp
    with q have "c = d \<and> concat (map (escape_char q) s) = concat (map (escape_char q) t')"
      by (rule escape_char_prefix_code)
    with Cons.IH Cons show ?thesis by simp
  qed
qed

lemma str_repr_inject:
  assumes "str_repr s = str_repr t"
  shows "s = t"
proof -
  from assms have q: "quote_of s = quote_of t"
    by (simp add: str_repr_def Let_def)
  with assms have "concat (map (escape_char (quote_of s)) s)
      = concat (map (escape_char (quote_of s)) t)"
    by (simp add: str_repr_def Let_def)
  with quote_of_cases [of s] show ?thesis by (rule escaped_inject)
qed

lemma digits_small:
  assumes "n < 10"
  shows "digits n = [char_of (48 + n)]"
  using assms by (subst digits.simps) simp

lemma digits_big:
  assumes "\<not> n < 10"
  shows "digits n = digits (n div 10) @ [char_of (48 + n mod 10)]"
  using assms by (subst digits.simps) simp

lemma digits_nonempty: "digits n \<noteq> []"
  by (subst digits.simps) simp

lemma digit_char_inject:
  assumes "a < 10" and "b < 10" and "char_of (48 + a) = (char_of (48 + b) :: char)"
  shows "a = (b :: nat)"
  using assms by (simp add: char_of_eq_iff take_bit_eq_mod)

lemma digits_inject:
  assumes "digits n = digits m"
  shows "n = m"
  using assms
proof (induction n arbitrary: m rule: digits.induct)
  case (1 n)
  show ?case
  proof (cases "n < 10")
    case small: True
    show ?thesis
    proof (cases "m < 10")
      case True
      with small "1.prems" show ?thesis
        by (simp add: digits_small digit_char_inject)
    next
      case False
      with small "1.prems" have "[char_of (48 + n)] = digits (m div 10) @ [char_of (48 + m mod 10)]"
        by (simp add: digits_small digits_big)
      then have "digits (m div 10) = []" by simp
      then show ?thesis by (simp add: digits_nonempty)
    qed
  next
    case big: False
    show ?thesis
    proof (cases "m < 10")
      case True
      with big "1.prems" have "digits (n div 10) @ [char_of (48 + n mod 10)] = [char_of (48 + m)]"
        by (simp add: digits_small digits_big)
      then have "digits (n div 10) = []" by simp
      then show ?thesis by (simp add: digits_nonempty)
    next
      case False
      with big "1.prems" have eq: "digits (n div 10) @ [char_of (48 + n mod 10)]
          = digits (m div 10) @ [char_of (48 + m mod 10)]"
        by (simp add: digits_small digits_big)
      then have "digits (n div 10) = digits (m div 10)" by simp
      with big have hi: "n div 10 = m div 10" by (rule "1.IH")
      from eq have "char_of (48 + n mod 10) = (char_of (48 + m mod 10) :: char)" by simp
      then have lo: "n mod 10 = m mod 10"
        by (intro digit_char_inject) simp_all
      from hi lo show ?thesis by (metis div_mult_mod_eq)
    qed
  qed
qed

lemma digits_no_minus: "CHR ''-'' \<notin> set (digits n)"
proof (induction n rule: digits.induct)
  case (1 n)
  have d: "CHR ''-'' \<noteq> char_of (48 + k)" if "k < 10" for k :: nat
  proof
    assume "CHR ''-'' = char_of (48 + k)"
    then have "(of_char CHR ''-'' :: nat) = of_char (char_of (48 + k) :: char)" by simp
    with that show False by (simp add: of_char_of)
  qed
  show ?case
  proof (cases "n < 10")
    case True
    then show ?thesis using d [of n] by (simp add: digits_small)
  next
    case False
    with 1 d [of "n mod 10"] show ?thesis by (simp add: digits_big)
  qed
qed

lemma int_repr_inject:
  assumes "int_repr i = int_repr j"
  shows "i = j"
proof -
  have head: "hd (digits n) \<noteq> CHR ''-''" for n
    using digits_no_minus [of n] digits_nonempty [of n] by (cases "digits n") auto
  show ?thesis
  proof (cases "i < 0")
    case ineg: True
    show ?thesis
    proof (cases "j < 0")
      case True
      with ineg assms have "nat (- i) = nat (- j)"
        by (simp add: int_repr_def digits_inject)
      with ineg True show ?thesis by simp
    next
      case False
      with ineg assms have "CHR ''-'' # digits (nat (- i)) = digits (nat j)"
        by (simp add: int_repr_def)
      then have "hd (digits (nat j)) = CHR ''-''" by (metis list.sel(1))
      with head show ?thesis by simp
    qed
  next
    case ipos: False
    show ?thesis
    proof (cases "j < 0")
      case True
      with ipos assms have "digits (nat i) = CHR ''-'' # digits (nat (- j))"
        by (simp add: int_repr_def)
      then have "hd (digits (nat i)) = CHR ''-''" by (metis list.sel(1))
      with head show ?thesis by simp
    next
      case False
      with ipos assms have "nat i = nat j"
        by (simp add: int_repr_def digits_inject)
      with ipos False show ?thesis by simp
    qed
  qed
qed


section \<open>Printed values can be read back from the text around them\<close>

text \<open>
  Inside a dict's \<^verbatim>\<open>repr\<close> a value is followed by more text. The \<^verbatim>\<open>repr\<close> of a string
  ends at its closing quote, whatever follows; the \<^verbatim>\<open>repr\<close> of an integer ends before
  the first character that is no digit; a datetime in UTC and an Escalation end at their
  closing bracket. So two texts that start with a printed value and are equal start with
  the same value and go on alike.
\<close>

lemma escape_char_head:
  assumes "q = CHR 0x27 \<or> q = CHR 0x22"
  shows "escape_char q c @ xs \<noteq> q # ys"
  using assms by (auto simp: escape_char_def)

lemma escaped_prefix_code:
  assumes q: "q = CHR 0x27 \<or> q = CHR 0x22"
    and eq: "concat (map (escape_char q) s) @ q # xs = concat (map (escape_char q) t) @ q # ys"
  shows "s = t \<and> xs = ys"
  using eq
proof (induction s arbitrary: t)
  case Nil
  show ?case
  proof (cases t)
    case Nil
    with Nil.prems show ?thesis by simp
  next
    case (Cons d t')
    with Nil.prems have "escape_char q d @ (concat (map (escape_char q) t') @ q # ys) = q # xs"
      by simp
    with q show ?thesis by (simp add: escape_char_head)
  qed
next
  case (Cons c s)
  show ?case
  proof (cases t)
    case Nil
    with Cons.prems have "escape_char q c @ (concat (map (escape_char q) s) @ q # xs) = q # ys"
      by simp
    with q show ?thesis by (simp add: escape_char_head)
  next
    case (Cons d t')
    with Cons.prems have "escape_char q c @ (concat (map (escape_char q) s) @ q # xs)
        = escape_char q d @ (concat (map (escape_char q) t') @ q # ys)"
      by simp
    with q have "c = d \<and> concat (map (escape_char q) s) @ q # xs
        = concat (map (escape_char q) t') @ q # ys"
      by (rule escape_char_prefix_code)
    with Cons.IH Cons show ?thesis by simp
  qed
qed

lemma str_repr_prefix_code:
  "str_repr s @ xs = str_repr t @ ys \<longleftrightarrow> s = t \<and> xs = ys"
proof
  assume eq: "str_repr s @ xs = str_repr t @ ys"
  then have q: "quote_of s = quote_of t"
    by (simp add: str_repr_def Let_def)
  with eq have "concat (map (escape_char (quote_of s)) s) @ quote_of s # xs
      = concat (map (escape_char (quote_of s)) t) @ quote_of s # ys"
    by (simp add: str_repr_def Let_def)
  with quote_of_cases [of s] show "s = t \<and> xs = ys"
    by (rule escaped_prefix_code)
qed simp

lemma bool_repr_prefix_code:
  "(if b then ''True'' else ''False'') @ xs = (if c then ''True'' else ''False'') @ ys
     \<longleftrightarrow> b = c \<and> xs = ys"
  by auto

lemma digits_set: "set (digits n) \<subseteq> set ''0123456789''"
proof (induction n rule: digits.induct)
  case (1 n)
  have d: "char_of (48 + k) \<in> set ''0123456789''" if "k < 10" for k :: nat
  proof -
    from that have "k \<in> {0, 1, 2, 3, 4, 5, 6, 7, 8, 9}" by auto
    then show ?thesis by (auto simp: char_of_eq_iff)
  qed
  show ?case
  proof (cases "n < 10")
    case True
    then show ?thesis using d [of n] by (simp add: digits_small)
  next
    case False
    with 1 d [of "n mod 10"] show ?thesis by (simp add: digits_big)
  qed
qed

lemma takeWhile_stop:
  assumes "set as \<subseteq> D" and "c \<notin> D"
  shows "takeWhile (\<lambda>x. x \<in> D) (as @ c # xs) = as"
  using assms by (induction as) auto

lemma digits_terminated:
  assumes c: "c \<notin> set ''0123456789''" and d: "d \<notin> set ''0123456789''"
    and eq: "digits a @ c # xs = digits b @ d # ys"
  shows "a = b \<and> c = d \<and> xs = ys"
proof -
  have a: "takeWhile (\<lambda>x. x \<in> set ''0123456789'') (digits a @ c # xs) = digits a"
    using digits_set c by (rule takeWhile_stop)
  have b: "takeWhile (\<lambda>x. x \<in> set ''0123456789'') (digits b @ d # ys) = digits b"
    using digits_set d by (rule takeWhile_stop)
  from a b have same: "digits a = digits b"
    unfolding eq by simp
  then have "a = b" by (rule digits_inject)
  with eq same show ?thesis by simp
qed

lemma digits_head: "\<exists>x xs. digits n = x # xs \<and> x \<in> set ''0123456789''"
  using digits_nonempty [of n] digits_set [of n] by (cases "digits n") auto

lemma minus_no_digit: "CHR ''-'' \<notin> set ''0123456789''"
  by simp

lemma int_repr_signs:
  assumes "i < 0" and "\<not> j < 0"
  shows "int_repr i @ xs \<noteq> int_repr j @ ys"
proof
  assume eq: "int_repr i @ xs = int_repr j @ ys"
  obtain x rest where j: "digits (nat j) = x # rest" and x: "x \<in> set ''0123456789''"
    using digits_head by blast
  from assms eq j have "CHR ''-'' = x"
    by (simp add: int_repr_def)
  with x minus_no_digit show False by blast
qed

lemma int_repr_terminated:
  assumes c: "c \<notin> set ''0123456789''" and d: "d \<notin> set ''0123456789''"
  shows "int_repr i @ c # xs = int_repr j @ d # ys \<longleftrightarrow> i = j \<and> c = d \<and> xs = ys"
proof
  assume eq: "int_repr i @ c # xs = int_repr j @ d # ys"
  show "i = j \<and> c = d \<and> xs = ys"
  proof (cases "i < 0")
    case ineg: True
    show ?thesis
    proof (cases "j < 0")
      case True
      with ineg eq have "digits (nat (- i)) @ c # xs = digits (nat (- j)) @ d # ys"
        by (simp add: int_repr_def)
      with c d have "nat (- i) = nat (- j) \<and> c = d \<and> xs = ys"
        by (rule digits_terminated)
      with ineg True show ?thesis by auto
    next
      case False
      with ineg eq int_repr_signs [of i j] show ?thesis by blast
    qed
  next
    case ipos: False
    show ?thesis
    proof (cases "j < 0")
      case True
      with ipos eq int_repr_signs [of j i "d # ys" "c # xs"] show ?thesis by simp
    next
      case False
      with ipos eq have "digits (nat i) @ c # xs = digits (nat j) @ d # ys"
        by (simp add: int_repr_def)
      with c d have "nat i = nat j \<and> c = d \<and> xs = ys"
        by (rule digits_terminated)
      with ipos False show ?thesis by auto
    qed
  qed
qed simp

lemma int_repr_head:
  assumes "c \<notin> set ''0123456789''" and "c \<noteq> CHR ''-''"
  shows "int_repr i @ xs \<noteq> c # ys"
proof
  assume eq: "int_repr i @ xs = c # ys"
  obtain x rest where p: "digits (nat i) = x # rest" and x: "x \<in> set ''0123456789''"
    using digits_head by blast
  show False
  proof (cases "i < 0")
    case True
    with eq have "CHR ''-'' = c" by (simp add: int_repr_def)
    with assms(2) show False by simp
  next
    case False
    with eq p have "x = c" by (simp add: int_repr_def)
    with x assms(1) show False by blast
  qed
qed


lemma int_repr_head_sym:
  assumes "c \<notin> set ''0123456789''" and "c \<noteq> CHR ''-''"
  shows "c # ys \<noteq> int_repr i @ xs"
  using int_repr_head [OF assms] by metis

lemmas int_repr_codes = int_repr_terminated int_repr_head int_repr_head_sym

lemma datetime_repr_utc_prefix_code:
  assumes "tzinfo d = Some UTC" and "tzinfo d' = Some UTC"
  shows "datetime_repr d @ xs = datetime_repr d' @ ys \<longleftrightarrow> d = d' \<and> xs = ys"
proof (cases d)
  case d: (fields y mo da h mi s us z)
  show ?thesis
  proof (cases d')
    case d': (fields y' mo' da' h' mi' s' us' z')
    from assms show ?thesis
      unfolding d d'
      by (simp add: datetime_repr_def tz_repr_def int_repr_codes) 
  qed
qed

lemma datetime_repr_head:
  "datetime_repr d @ xs \<noteq> CHR ''N'' # ys" "CHR ''N'' # ys \<noteq> datetime_repr d @ xs"
  by (simp_all add: datetime_repr_def)

lemma Escalation_repr_head:
  "Escalation_repr e @ xs \<noteq> CHR ''N'' # ys" "CHR ''N'' # ys \<noteq> Escalation_repr e @ xs"
  by (simp_all add: Escalation_repr_def dict_repr_def)

lemma Escalation_repr_prefix_code:
  assumes "Escalation_wf e" and "Escalation_wf e'"
  shows "Escalation_repr e @ xs = Escalation_repr e' @ ys \<longleftrightarrow> e = e' \<and> xs = ys"
proof (cases e)
  case e: (fields l d n)
  show ?thesis
  proof (cases e')
    case e': (fields l' d' n')
    from assms show ?thesis
      unfolding e e'
      by (auto simp: Escalation_wf_def Escalation_repr_def dict_repr_def Escalation_dict_def
          item_repr_def opt_datetime_def str_repr_prefix_code int_repr_codes
          datetime_repr_utc_prefix_code datetime_repr_head split: option.splits)
  qed
qed


lemma datetime_repr_utc_inject:
  assumes "tzinfo d = Some UTC" and "tzinfo d' = Some UTC"
  shows "datetime_repr d = datetime_repr d' \<longleftrightarrow> d = d'"
  using datetime_repr_utc_prefix_code [OF assms, of "[]" "[]"] by simp

lemma Escalation_repr_inject:
  assumes "Escalation_wf e" and "Escalation_wf e'"
  shows "Escalation_repr e = Escalation_repr e' \<longleftrightarrow> e = e'"
  using Escalation_repr_prefix_code [OF assms, of "[]" "[]"] by simp

lemma Escalation_repr_not_None:
  "Escalation_repr e \<noteq> ''None''" "''None'' \<noteq> Escalation_repr e"
  by (simp_all add: Escalation_repr_def dict_repr_def)


section \<open>The string representation of a Task\<close>

lemma sublist_join:
  assumes "x \<in> set xs"
  shows "sublist x (join sep xs)"
  using assms
proof (induction sep xs rule: join.induct)
  case (1 sep)
  then show ?case by simp
next
  case (2 sep y)
  then show ?case by simp
next
  case (3 sep y z zs)
  show ?case
  proof (cases "x = y")
    case True
    then show ?thesis by simp
  next
    case False
    with 3 have "sublist x (join sep (z # zs))" by simp
    then obtain ps ss where "join sep (z # zs) = ps @ x @ ss"
      by (auto simp: sublist_def)
    then have "join sep (y # z # zs) = (y @ sep @ ps) @ x @ ss" by simp
    then show ?thesis unfolding sublist_def by blast
  qed
qed

text \<open>Every item of a dict stands in its \<^verbatim>\<open>repr\<close>, whatever the order of the items.\<close>

lemma dict_repr_item:
  assumes "kv \<in> set items"
  shows "sublist (item_repr r kv) (dict_repr r items)"
proof -
  from assms have "item_repr r kv \<in> set (map (item_repr r) items)" by simp
  then have "sublist (item_repr r kv) (join '', '' (map (item_repr r) items))"
    by (rule sublist_join)
  then obtain ps ss where "join '', '' (map (item_repr r) items) = ps @ item_repr r kv @ ss"
    by (auto simp: sublist_def)
  then have "dict_repr r items = (''{'' @ ps) @ item_repr r kv @ (ss @ ''}'')"
    by (simp add: dict_repr_def)
  then show ?thesis unfolding sublist_def by blast
qed

lemma Escalation_repr_complete:
  "list_all (\<lambda>kv. sublist (item_repr atom_repr kv) (Escalation_repr e)) (Escalation_dict e)"
  unfolding list_all_iff Escalation_repr_def using dict_repr_item by blast

text \<open>
  A dict of Python 2 lists its items in the order of its hash table. The items of
  \<^verbatim>\<open>Task.__dict__\<close> stand in its \<^verbatim>\<open>repr\<close> in whatever order they are listed.
\<close>

lemma Task_dict_any_order:
  assumes "set items = set (Task_dict t)" and "kv \<in> set (Task_dict t)"
  shows "sublist (item_repr value_repr kv) (dict_repr value_repr items)"
  using assms by (simp add: dict_repr_item)

text \<open>
  Two constructed Tasks that print alike were constructed from the same values; the
  escalations are taken as Escalation's own constructor and methods leave them.
\<close>

lemma utc_localize_inject:
  assumes "utc_localize ev = Inr dt" and "utc_localize ev' = Inr dt" 
  shows "ev = ev'"
proof -
  from assms(1) obtain d where ev: "ev = Some d" and n: "tzinfo d = None"
    and dt: "dt = d\<lparr>tzinfo := Some UTC\<rparr>"
    by (auto simp: utc_localize_def split: option.splits if_splits)
  from assms(2) obtain d' where ev': "ev' = Some d'" and n': "tzinfo d' = None"
    and dt': "dt = d'\<lparr>tzinfo := Some UTC\<rparr>"
    by (auto simp: utc_localize_def split: option.splits if_splits)
  from dt dt' n n' have "d = d'"
    by (cases d, cases d') simp
  with ev ev' show ?thesis by simp
qed

lemma utc_localize_zone:
  assumes "utc_localize ev = Inr dt"
  shows "tzinfo dt = Some UTC"
  using assms by (auto simp: utc_localize_def split: option.splits if_splits)

lemma Task_str_inject:
  assumes t: "Task_init ti us re de ur pe co au st ev es = Inr t"
    and t': "Task_init ti' us' re' de' ur' pe' co' au' st' ev' es' = Inr t'"
    and wf: "case es of None \<Rightarrow> True | Some e \<Rightarrow> Escalation_wf e"
    and wf': "case es' of None \<Rightarrow> True | Some e \<Rightarrow> Escalation_wf e"
    and eq: "Task_str t = Task_str t'"
  shows "ti = ti' \<and> us = us' \<and> re = re' \<and> de = de' \<and> ur = ur' \<and> pe = pe' \<and> co = co'
    \<and> au = au' \<and> st = st' \<and> ev = ev' \<and> es = es'"
proof -
  from t obtain dt where loc: "utc_localize ev = Inr dt"
    and t_def: "t = \<lparr>title = ti, username = us, reason = re, description = de, url = ur,
               performed = pe, comment = co, authenticated = au, status = st,
               event_time = Some dt, escalation = es\<rparr>"
    by (auto simp: Task_init_def split: sum.splits)
  from t' obtain dt' where loc': "utc_localize ev' = Inr dt'"
    and t'_def: "t' = \<lparr>title = ti', username = us', reason = re', description = de', url = ur',
               performed = pe', comment = co', authenticated = au', status = st',
               event_time = Some dt', escalation = es'\<rparr>"
    by (auto simp: Task_init_def split: sum.splits)
  note z = utc_localize_zone [OF loc] utc_localize_zone [OF loc']
  from eq z wf wf' have "ti = ti' \<and> us = us' \<and> re = re' \<and> de = de' \<and> ur = ur' \<and> pe = pe'
      \<and> co = co' \<and> au = au' \<and> st = st' \<and> dt = dt' \<and> es = es'"
    unfolding t_def t'_def
    by (auto simp: Task_str_def Task_dict_def dict_repr_def item_repr_def opt_datetime_def
        opt_escalation_def str_repr_prefix_code int_repr_codes datetime_repr_utc_prefix_code
        Escalation_repr_prefix_code Escalation_repr_head datetime_repr_utc_inject
        Escalation_repr_inject Escalation_repr_not_None split: option.splits if_splits)
  with loc loc' utc_localize_inject [of ev dt ev'] show ?thesis by simp
qed

text \<open>The \<^verbatim>\<open>repr\<close> of each attribute name is the name in single quotes.\<close>

lemma key_repr:
  "str_repr ''title'' = CHR 0x27 # ''title'' @ [CHR 0x27]"
  "str_repr ''username'' = CHR 0x27 # ''username'' @ [CHR 0x27]"
  "str_repr ''reason'' = CHR 0x27 # ''reason'' @ [CHR 0x27]"
  "str_repr ''description'' = CHR 0x27 # ''description'' @ [CHR 0x27]"
  "str_repr ''url'' = CHR 0x27 # ''url'' @ [CHR 0x27]"
  "str_repr ''performed'' = CHR 0x27 # ''performed'' @ [CHR 0x27]"
  "str_repr ''comment'' = CHR 0x27 # ''comment'' @ [CHR 0x27]"
  "str_repr ''authenticated'' = CHR 0x27 # ''authenticated'' @ [CHR 0x27]"
  "str_repr ''status'' = CHR 0x27 # ''status'' @ [CHR 0x27]"
  "str_repr ''event_time'' = CHR 0x27 # ''event_time'' @ [CHR 0x27]"
  "str_repr ''escalation'' = CHR 0x27 # ''escalation'' @ [CHR 0x27]"
  "str_repr ''ldap'' = CHR 0x27 # ''ldap'' @ [CHR 0x27]"
  "str_repr ''delay_in_sec'' = CHR 0x27 # ''delay_in_sec'' @ [CHR 0x27]"
  "str_repr ''_notified_at'' = CHR 0x27 # ''_notified_at'' @ [CHR 0x27]"
  by (simp_all add: str_repr_def quote_of_def escape_char_def Let_def)

lemma Task_items_in_str:
  "list_all (\<lambda>x. sublist x (Task_str t)) (map (item_repr value_repr) (Task_dict t))"
  unfolding Task_str_def list_all_iff using dict_repr_item by fastforce

text \<open>The string of one Task, character for character.\<close>

lemma Task_str_example:
  "Task_str
     \<lparr>title = ''T'', username = ''alice'', reason = ''r'', description = ''d'',
            url = ''u'', performed = True, comment = ''c'', authenticated = False,
            status = 0,
            event_time = Some \<lparr>year = 2017, month = 1, day = 2, hour = 3, minute = 4,
              second = 5, microsecond = 0, tzinfo = Some UTC\<rparr>,
            escalation = Some \<lparr>ldap = ''bob'', delay_in_sec = 300, notified_at = None\<rparr>\<rparr>
   = ''{'' @ [CHR 0x27] @ ''title'' @ [CHR 0x27] @ '': '' @ [CHR 0x27] @ ''T''
        @ [CHR 0x27] @ '', '' @ [CHR 0x27] @ ''username'' @ [CHR 0x27] @ '': ''
        @ [CHR 0x27] @ ''alice'' @ [CHR 0x27] @ '', '' @ [CHR 0x27] @ ''reason''
        @ [CHR 0x27] @ '': '' @ [CHR 0x27] @ ''r'' @ [CHR 0x27] @ '', ''
        @ [CHR 0x27] @ ''description'' @ [CHR 0x27] @ '': '' @ [CHR 0x27] @ ''d''
        @ [CHR 0x27] @ '', '' @ [CHR 0x27] @ ''url'' @ [CHR 0x27] @ '': ''
        @ [CHR 0x27] @ ''u'' @ [CHR 0x27] @ '', '' @ [CHR 0x27] @ ''performed''
        @ [CHR 0x27] @ '': True, '' @ [CHR 0x27] @ ''comment'' @ [CHR 0x27]
        @ '': '' @ [CHR 0x27] @ ''c'' @ [CHR 0x27] @ '', '' @ [CHR 0x27]
        @ ''authenticated'' @ [CHR 0x27] @ '': False, '' @ [CHR 0x27] @ ''status''
        @ [CHR 0x27] @ '': 0, '' @ [CHR 0x27] @ ''event_time'' @ [CHR 0x27]
        @ '': datetime.datetime(2017, 1, 2, 3, 4, 5, tzinfo=<UTC>), '' @ [CHR 0x27]
        @ ''escalation'' @ [CHR 0x27] @ '': {'' @ [CHR 0x27] @ ''ldap''
        @ [CHR 0x27] @ '': '' @ [CHR 0x27] @ ''bob'' @ [CHR 0x27] @ '', ''
        @ [CHR 0x27] @ ''delay_in_sec'' @ [CHR 0x27] @ '': 300, '' @ [CHR 0x27]
        @ ''_notified_at'' @ [CHR 0x27] @ '': None}}''"
  by code_simp

text \<open>
  C9: the string representation of every constructed Task holds every attribute set at
  construction, with no omission and no redaction. First, for each of title, username,
  reason, description, url, performed, comment, authenticated, status, event_time and
  escalation, the text \<^verbatim>\<open>'name': value\<close> is a part of \<^verbatim>\<open>str(task)\<close>, the value printed
  in full: a string by its \<^verbatim>\<open>repr\<close>, a boolean as \<^verbatim>\<open>True\<close> or \<^verbatim>\<open>False\<close>, the status
  in decimal, the event time as the constructor stored it (in UTC), the escalation as
  \<^verbatim>\<open>None\<close> or as the dict of its own three attributes. Second, nothing of a value is
  lost in the text: any constructed Task with the same string was constructed from the
  same eleven values (the escalations with a timestamp that is \<^verbatim>\<open>None\<close> or in UTC, as
  Escalation's constructor and \<^verbatim>\<open>set_notified\<close> leave it).
\<close>

theorem Task_str_has_every_attribute:
  assumes "Task_init ti us re de ur pe co au st ev es = Inr t"
  shows "(\<exists>dt. ev = Some dt \<and> tzinfo dt = None \<and>
      list_all (\<lambda>x. sublist x (Task_str t))
        [CHR 0x27 # ''title'' @ CHR 0x27 # '': '' @ str_repr ti,
         CHR 0x27 # ''username'' @ CHR 0x27 # '': '' @ str_repr us,
         CHR 0x27 # ''reason'' @ CHR 0x27 # '': '' @ str_repr re,
         CHR 0x27 # ''description'' @ CHR 0x27 # '': '' @ str_repr de,
         CHR 0x27 # ''url'' @ CHR 0x27 # '': '' @ str_repr ur,
         CHR 0x27 # ''performed'' @ CHR 0x27 # '': '' @ (if pe then ''True'' else ''False''),
         CHR 0x27 # ''comment'' @ CHR 0x27 # '': '' @ str_repr co,
         CHR 0x27 # ''authenticated'' @ CHR 0x27 # '': '' @ (if au then ''True'' else ''False''),
         CHR 0x27 # ''status'' @ CHR 0x27 # '': '' @ int_repr st,
         CHR 0x27 # ''event_time'' @ CHR 0x27 # '': ''
           @ datetime_repr (dt\<lparr>tzinfo := Some UTC\<rparr>),
         CHR 0x27 # ''escalation'' @ CHR 0x27 # '': ''
           @ (case es of
                None \<Rightarrow> ''None''
              | Some e \<Rightarrow>
                  ''{'' @ CHR 0x27 # ''ldap'' @ CHR 0x27 # '': '' @ str_repr (ldap e)
                  @ '', '' @ CHR 0x27 # ''delay_in_sec'' @ CHR 0x27 # '': ''
                  @ int_repr (delay_in_sec e)
                  @ '', '' @ CHR 0x27 # ''_notified_at'' @ CHR 0x27 # '': ''
                  @ (case notified_at e of None \<Rightarrow> ''None'' | Some d \<Rightarrow> datetime_repr d)
                  @ ''}'')])
    \<and> ((case es of None \<Rightarrow> True | Some e \<Rightarrow> Escalation_wf e) \<longrightarrow>
        (\<forall>ti' us' re' de' ur' pe' co' au' st' ev' es' t'.
           Task_init ti' us' re' de' ur' pe' co' au' st' ev' es' = Inr t'
           \<and> (case es' of None \<Rightarrow> True | Some e \<Rightarrow> Escalation_wf e)
           \<and> Task_str t' = Task_str t
           \<longrightarrow> ti' = ti \<and> us' = us \<and> re' = re \<and> de' = de \<and> ur' = ur \<and> pe' = pe
             \<and> co' = co \<and> au' = au \<and> st' = st \<and> ev' = ev \<and> es' = es))"
proof (rule conjI)
  from assms obtain dt where ev: "ev = Some dt" and naive: "tzinfo dt = None"
    by (auto simp: Task_init_def utc_localize_def split: option.splits if_splits)
  from assms ev naive have t: "t = \<lparr>title = ti, username = us, reason = re, description = de,
      url = ur, performed = pe, comment = co, authenticated = au, status = st,
      event_time = Some (dt\<lparr>tzinfo := Some UTC\<rparr>), escalation = es\<rparr>"
    by (auto simp: Task_init_def utc_localize_def)
  have texts: "map (item_repr value_repr) (Task_dict t) =
        [CHR 0x27 # ''title'' @ CHR 0x27 # '': '' @ str_repr ti,
         CHR 0x27 # ''username'' @ CHR 0x27 # '': '' @ str_repr us,
         CHR 0x27 # ''reason'' @ CHR 0x27 # '': '' @ str_repr re,
         CHR 0x27 # ''description'' @ CHR 0x27 # '': '' @ str_repr de,
         CHR 0x27 # ''url'' @ CHR 0x27 # '': '' @ str_repr ur,
         CHR 0x27 # ''performed'' @ CHR 0x27 # '': '' @ (if pe then ''True'' else ''False''),
         CHR 0x27 # ''comment'' @ CHR 0x27 # '': '' @ str_repr co,
         CHR 0x27 # ''authenticated'' @ CHR 0x27 # '': '' @ (if au then ''True'' else ''False''),
         CHR 0x27 # ''status'' @ CHR 0x27 # '': '' @ int_repr st,
         CHR 0x27 # ''event_time'' @ CHR 0x27 # '': ''
           @ datetime_repr (dt\<lparr>tzinfo := Some UTC\<rparr>),
         CHR 0x27 # ''escalation'' @ CHR 0x27 # '': ''
           @ (case es of
                None \<Rightarrow> ''None''
              | Some e \<Rightarrow>
                  ''{'' @ CHR 0x27 # ''ldap'' @ CHR 0x27 # '': '' @ str_repr (ldap e)
                  @ '', '' @ CHR 0x27 # ''delay_in_sec'' @ CHR 0x27 # '': ''
                  @ int_repr (delay_in_sec e)
                  @ '', '' @ CHR 0x27 # ''_notified_at'' @ CHR 0x27 # '': ''
                  @ (case notified_at e of None \<Rightarrow> ''None'' | Some d \<Rightarrow> datetime_repr d)
                  @ ''}'')]"
    unfolding Task_dict_def
    by (simp add: t item_repr_def key_repr opt_datetime_def opt_escalation_def
        Escalation_repr_def dict_repr_def Escalation_dict_def split: option.split)
  have "list_all (\<lambda>x. sublist x (Task_str t)) (map (item_repr value_repr) (Task_dict t))"
    by (rule Task_items_in_str)
  then have "list_all (\<lambda>x. sublist x (Task_str t))
        [CHR 0x27 # ''title'' @ CHR 0x27 # '': '' @ str_repr ti,
         CHR 0x27 # ''username'' @ CHR 0x27 # '': '' @ str_repr us,
         CHR 0x27 # ''reason'' @ CHR 0x27 # '': '' @ str_repr re,
         CHR 0x27 # ''description'' @ CHR 0x27 # '': '' @ str_repr de,
         CHR 0x27 # ''url'' @ CHR 0x27 # '': '' @ str_repr ur,
         CHR 0x27 # ''performed'' @ CHR 0x27 # '': '' @ (if pe then ''True'' else ''False''),
         CHR 0x27 # ''comment'' @ CHR 0x27 # '': '' @ str_repr co,
         CHR 0x27 # ''authenticated'' @ CHR 0x27 # '': '' @ (if au then ''True'' else ''False''),
         CHR 0x27 # ''status'' @ CHR 0x27 # '': '' @ int_repr st,
         CHR 0x27 # ''event_time'' @ CHR 0x27 # '': ''
           @ datetime_repr (dt\<lparr>tzinfo := Some UTC\<rparr>),
         CHR 0x27 # ''escalation'' @ CHR 0x27 # '': ''
           @ (case es of
                None \<Rightarrow> ''None''
              | Some e \<Rightarrow>
                  ''{'' @ CHR 0x27 # ''ldap'' @ CHR 0x27 # '': '' @ str_repr (ldap e)
                  @ '', '' @ CHR 0x27 # ''delay_in_sec'' @ CHR 0x27 # '': ''
                  @ int_repr (delay_in_sec e)
                  @ '', '' @ CHR 0x27 # ''_notified_at'' @ CHR 0x27 # '': ''
                  @ (case notified_at e of None \<Rightarrow> ''None'' | Some d \<Rightarrow> datetime_repr d)
                  @ ''}'')]"
    unfolding texts .
  with ev naive show "\<exists>dt. ev = Some dt \<and> tzinfo dt = None \<and>
      list_all (\<lambda>x. sublist x (Task_str t))
        [CHR 0x27 # ''title'' @ CHR 0x27 # '': '' @ str_repr ti,
         CHR 0x27 # ''username'' @ CHR 0x27 # '': '' @ str_repr us,
         CHR 0x27 # ''reason'' @ CHR 0x27 # '': '' @ str_repr re,
         CHR 0x27 # ''description'' @ CHR 0x27 # '': '' @ str_repr de,
         CHR 0x27 # ''url'' @ CHR 0x27 # '': '' @ str_repr ur,
         CHR 0x27 # ''performed'' @ CHR 0x27 # '': '' @ (if pe then ''True'' else ''False''),
         CHR 0x27 # ''comment'' @ CHR 0x27 # '': '' @ str_repr co,
         CHR 0x27 # ''authenticated'' @ CHR 0x27 # '': '' @ (if au then ''True'' else ''False''),
         CHR 0x27 # ''status'' @ CHR 0x27 # '': '' @ int_repr st,
         CHR 0x27 # ''event_time'' @ CHR 0x27 # '': ''
           @ datetime_repr (dt\<lparr>tzinfo := Some UTC\<rparr>),
         CHR 0x27 # ''escalation'' @ CHR 0x27 # '': ''
           @ (case es of
                None \<Rightarrow> ''None''
              | Some e \<Rightarrow>
                  ''{'' @ CHR 0x27 # ''ldap'' @ CHR 0x27 # '': '' @ str_repr (ldap e)
                  @ '', '' @ CHR 0x27 # ''delay_in_sec'' @ CHR 0x27 # '': ''
                  @ int_repr (delay_in_sec e)
                  @ '', '' @ CHR 0x27 # ''_notified_at'' @ CHR 0x27 # '': ''
                  @ (case notified_at e of None \<Rightarrow> ''None'' | Some d \<Rightarrow> datetime_repr d)
                  @ ''}'')]"
    by blast
next
  show "(case es of None \<Rightarrow> True | Some e \<Rightarrow> Escalation_wf e) \<longrightarrow>
        (\<forall>ti' us' re' de' ur' pe' co' au' st' ev' es' t'.
           Task_init ti' us' re' de' ur' pe' co' au' st' ev' es' = Inr t'
           \<and> (case es' of None \<Rightarrow> True | Some e \<Rightarrow> Escalation_wf e)
           \<and> Task_str t' = Task_str t
           \<longrightarrow> ti' = ti \<and> us' = us \<and> re' = re \<and> de' = de \<and> ur' = ur \<and> pe' = pe
             \<and> co' = co \<and> au' = au \<and> st' = st \<and> ev' = ev \<and> es' = es)"
  proof (intro impI allI)
    fix ti' us' re' de' ur' pe' co' au' st' ev' es' t'
    assume wf: "case es of None \<Rightarrow> True | Some e \<Rightarrow> Escalation_wf e"
      and other: "Task_init ti' us' re' de' ur' pe' co' au' st' ev' es' = Inr t'
           \<and> (case es' of None \<Rightarrow> True | Some e \<Rightarrow> Escalation_wf e)
           \<and> Task_str t' = Task_str t"
    from other have made: "Task_init ti' us' re' de' ur' pe' co' au' st' ev' es' = Inr t'"
      and wf': "case es' of None \<Rightarrow> True | Some e \<Rightarrow> Escalation_wf e"
      and same: "Task_str t' = Task_str t"
      by simp_all
    from made assms wf' wf same
    show "ti' = ti \<and> us' = us \<and> re' = re \<and> de' = de \<and> ur' = ur \<and> pe' = pe
             \<and> co' = co \<and> au' = au \<and> st' = st \<and> ev' = ev \<and> es' = es"
      by (rule Task_str_inject)
  qed
qed

theorem Task_str_has_every_attribute_witness:
  "Task_init ''T'' ''alice'' ''r'' ''d'' ''u'' True ''c'' False 0
       (Some \<lparr>year = 2017, month = 1, day = 2, hour = 3, minute = 4, second = 5,
              microsecond = 0, tzinfo = None\<rparr>)
       (Some \<lparr>ldap = ''bob'', delay_in_sec = 300, notified_at = None\<rparr>)
     = Inr \<lparr>title = ''T'', username = ''alice'', reason = ''r'', description = ''d'',
            url = ''u'', performed = True, comment = ''c'', authenticated = False,
            status = 0,
            event_time = Some \<lparr>year = 2017, month = 1, day = 2, hour = 3, minute = 4,
              second = 5, microsecond = 0, tzinfo = Some UTC\<rparr>,
            escalation = Some \<lparr>ldap = ''bob'', delay_in_sec = 300, notified_at = None\<rparr>\<rparr>
   \<and> Escalation_wf \<lparr>ldap = ''bob'', delay_in_sec = 300, notified_at = None\<rparr>
   \<and> sublist ([CHR 0x27] @ ''title'' @ [CHR 0x27] @ '': '' @ [CHR 0x27] @ ''T'' @ [CHR 0x27])
       (Task_str \<lparr>title = ''T'', username = ''alice'', reason = ''r'', description = ''d'',
            url = ''u'', performed = True, comment = ''c'', authenticated = False,
            status = 0,
            event_time = Some \<lparr>year = 2017, month = 1, day = 2, hour = 3, minute = 4,
              second = 5, microsecond = 0, tzinfo = Some UTC\<rparr>,
            escalation = Some \<lparr>ldap = ''bob'', delay_in_sec = 300, notified_at = None\<rparr>\<rparr>)
   \<and> Task_init ''U'' ''alice'' ''r'' ''d'' ''u'' True ''c'' False 0
       (Some \<lparr>year = 2017, month = 1, day = 2, hour = 3, minute = 4, second = 5,
              microsecond = 0, tzinfo = None\<rparr>)
       (Some \<lparr>ldap = ''bob'', delay_in_sec = 300, notified_at = None\<rparr>)
     = Inr \<lparr>title = ''U'', username = ''alice'', reason = ''r'', description = ''d'',
            url = ''u'', performed = True, comment = ''c'', authenticated = False,
            status = 0,
            event_time = Some \<lparr>year = 2017, month = 1, day = 2, hour = 3, minute = 4,
              second = 5, microsecond = 0, tzinfo = Some UTC\<rparr>,
            escalation = Some \<lparr>ldap = ''bob'', delay_in_sec = 300, notified_at = None\<rparr>\<rparr>
   \<and> Task_str \<lparr>title = ''U'', username = ''alice'', reason = ''r'', description = ''d'',
            url = ''u'', performed = True, comment = ''c'', authenticated = False,
            status = 0,
            event_time = Some \<lparr>year = 2017, month = 1, day = 2, hour = 3, minute = 4,
              second = 5, microsecond = 0, tzinfo = Some UTC\<rparr>,
            escalation = Some \<lparr>ldap = ''bob'', delay_in_sec = 300, notified_at = None\<rparr>\<rparr>
     \<noteq> Task_str \<lparr>title = ''T'', username = ''alice'', reason = ''r'', description = ''d'',
            url = ''u'', performed = True, comment = ''c'', authenticated = False,
            status = 0,
            event_time = Some \<lparr>year = 2017, month = 1, day = 2, hour = 3, minute = 4,
              second = 5, microsecond = 0, tzinfo = Some UTC\<rparr>,
            escalation = Some \<lparr>ldap = ''bob'', delay_in_sec = 300, notified_at = None\<rparr>\<rparr>"
proof -
  let ?dt = "\<lparr>year = 2017, month = 1, day = 2, hour = 3, minute = 4, second = 5,
              microsecond = 0, tzinfo = None\<rparr>"
  let ?esc = "\<lparr>ldap = ''bob'', delay_in_sec = 300, notified_at = None\<rparr>"
  let ?t = "\<lparr>title = ''T'', username = ''alice'', reason = ''r'', description = ''d'',
            url = ''u'', performed = True, comment = ''c'', authenticated = False,
            status = 0,
            event_time = Some \<lparr>year = 2017, month = 1, day = 2, hour = 3, minute = 4,
              second = 5, microsecond = 0, tzinfo = Some UTC\<rparr>,
            escalation = Some \<lparr>ldap = ''bob'', delay_in_sec = 300, notified_at = None\<rparr>\<rparr>"
  let ?u = "\<lparr>title = ''U'', username = ''alice'', reason = ''r'', description = ''d'',
            url = ''u'', performed = True, comment = ''c'', authenticated = False,
            status = 0,
            event_time = Some \<lparr>year = 2017, month = 1, day = 2, hour = 3, minute = 4,
              second = 5, microsecond = 0, tzinfo = Some UTC\<rparr>,
            escalation = Some \<lparr>ldap = ''bob'', delay_in_sec = 300, notified_at = None\<rparr>\<rparr>"
  have made: "Task_init ''T'' ''alice'' ''r'' ''d'' ''u'' True ''c'' False 0 (Some ?dt) (Some ?esc)
      = Inr ?t"
    by (simp add: Task_init_def utc_localize_def)
  have other: "Task_init ''U'' ''alice'' ''r'' ''d'' ''u'' True ''c'' False 0 (Some ?dt) (Some ?esc)
      = Inr ?u"
    by (simp add: Task_init_def utc_localize_def)
  have wf: "Escalation_wf ?esc"
    by (simp add: Escalation_wf_def)
  then have wf_opt: "case Some ?esc of None \<Rightarrow> True | Some e \<Rightarrow> Escalation_wf e"
    by simp
  note inst = Task_str_has_every_attribute [OF made]
  from inst [THEN conjunct1] obtain dt where
    "list_all (\<lambda>x. sublist x (Task_str ?t))
        [CHR 0x27 # ''title'' @ CHR 0x27 # '': '' @ str_repr ''T'',
         CHR 0x27 # ''username'' @ CHR 0x27 # '': '' @ str_repr ''alice'',
         CHR 0x27 # ''reason'' @ CHR 0x27 # '': '' @ str_repr ''r'',
         CHR 0x27 # ''description'' @ CHR 0x27 # '': '' @ str_repr ''d'',
         CHR 0x27 # ''url'' @ CHR 0x27 # '': '' @ str_repr ''u'',
         CHR 0x27 # ''performed'' @ CHR 0x27 # '': '' @ (if True then ''True'' else ''False''),
         CHR 0x27 # ''comment'' @ CHR 0x27 # '': '' @ str_repr ''c'',
         CHR 0x27 # ''authenticated'' @ CHR 0x27 # '': '' @ (if False then ''True'' else ''False''),
         CHR 0x27 # ''status'' @ CHR 0x27 # '': '' @ int_repr 0,
         CHR 0x27 # ''event_time'' @ CHR 0x27 # '': ''
           @ datetime_repr (dt\<lparr>tzinfo := Some UTC\<rparr>),
         CHR 0x27 # ''escalation'' @ CHR 0x27 # '': ''
           @ (case Some ?esc of
                None \<Rightarrow> ''None''
              | Some e \<Rightarrow>
                  ''{'' @ CHR 0x27 # ''ldap'' @ CHR 0x27 # '': '' @ str_repr (ldap e)
                  @ '', '' @ CHR 0x27 # ''delay_in_sec'' @ CHR 0x27 # '': ''
                  @ int_repr (delay_in_sec e)
                  @ '', '' @ CHR 0x27 # ''_notified_at'' @ CHR 0x27 # '': ''
                  @ (case notified_at e of None \<Rightarrow> ''None'' | Some d \<Rightarrow> datetime_repr d)
                  @ ''}'')]"
    by (elim exE conjE)
  then have "sublist (CHR 0x27 # ''title'' @ CHR 0x27 # '': '' @ str_repr ''T'') (Task_str ?t)"
    unfolding list.pred_inject by (rule conjunct1)
  moreover have "CHR 0x27 # ''title'' @ CHR 0x27 # '': '' @ str_repr ''T''
      = [CHR 0x27] @ ''title'' @ [CHR 0x27] @ '': '' @ [CHR 0x27] @ ''T'' @ [CHR 0x27]"
    by (simp add: str_repr_def quote_of_def escape_char_def Let_def)
  ultimately have title: "sublist
      ([CHR 0x27] @ ''title'' @ [CHR 0x27] @ '': '' @ [CHR 0x27] @ ''T'' @ [CHR 0x27])
      (Task_str ?t)"
    by (rule subst [rotated])
  have differs: "Task_str ?u \<noteq> Task_str ?t"
  proof
    assume "Task_str ?u = Task_str ?t"
    with other wf_opt have all3: "Task_init ''U'' ''alice'' ''r'' ''d'' ''u'' True ''c'' False 0
          (Some ?dt) (Some ?esc) = Inr ?u
        \<and> (case Some ?esc of None \<Rightarrow> True | Some e \<Rightarrow> Escalation_wf e)
        \<and> Task_str ?u = Task_str ?t"
      by (intro conjI)
    have "''U'' = ''T''"
      using inst [THEN conjunct2, rule_format, OF wf_opt all3] by (rule conjunct1)
    then show False by simp
  qed
  from made wf title other differs show ?thesis
    by (intro conjI)
qed

end
